theory Spec2Isabelle
  imports Complex_Main
begin

section \<open>The patch downloader: values shared by both phases\<close>

text \<open>
  The program (\<^verbatim>\<open>main.go\<close>) downloads a fixed list of files, one goroutine per
  file, waits for them on a channel and then calls \<^verbatim>\<open>untarGz\<close> on every file.
  A Go \<^verbatim>\<open>error\<close> value is kept as its message; \<^verbatim>\<open>nil\<close> is \<open>None\<close> of
  \<open>error option\<close>. A Go string is a sequence of bytes, as \<open>string\<close> is.
\<close>

datatype error = Error string

text \<open>What a call of a Go function ends with: a returned error value, or a run-time panic.\<close>

datatype outcome = Returned "error option" | Panicked string

text \<open>What the program prints on standard output, one constructor per print statement.\<close>

datatype out_event =
    UnableToUntar char string       \<comment> \<open>line 192, with \<^verbatim>\<open>header.Typeflag\<close> and \<^verbatim>\<open>header.Name\<close>\<close>
  | Untarring string                \<comment> \<open>line 138\<close>
  | ErrorUntarring string error     \<comment> \<open>line 141\<close>
  | ErrorCreating string            \<comment> \<open>line 202\<close>
  | ErrorDownloading string         \<comment> \<open>line 209\<close>
  | ErrorWriting string error       \<comment> \<open>line 241\<close>

definition files :: "string list" where
  "files = [''info.txt'', ''AraxiaPatchv1.tar.gz'', ''HDPatchv1.tar.gz'']"

section \<open>Extraction: \<^verbatim>\<open>untarGz\<close>\<close>

text \<open>
  The header of an archive entry, as \<^verbatim>\<open>archive/tar\<close> gives it. The type flag is a
  byte: \<^verbatim>\<open>tar.TypeReg\<close> is the character 0 and \<^verbatim>\<open>tar.TypeDir\<close> the character 5.
\<close>

record header =
  Typeflag :: char
  Name :: string

definition TypeReg :: char where
  "TypeReg = CHR ''0''"

definition TypeDir :: char where
  "TypeDir = CHR ''5''"

text \<open>
  One result of \<^verbatim>\<open>tarReader.Next()\<close>: an error other than \<^verbatim>\<open>io.EOF\<close>, or a header
  together with what reading the entry's content then delivers (its bytes, and the error
  the read ends with, \<open>None\<close> at a clean end). \<^verbatim>\<open>io.EOF\<close> is the end of the list.
\<close>

datatype tar_step =
    NextError error
  | NextHeader header string "error option"

text \<open>
  The operating system and the two library readers are not code of the program: they are
  parameters of the model. \<open>'fs\<close> is the state of the file system. An operation that
  changes it returns the new state and the error value of the call.
  \<^item> \<open>os_Open fs name\<close>: \<^verbatim>\<open>os.Open\<close>, the file's bytes or the error;
  \<^item> \<open>gzip_NewReader bytes\<close>: \<^verbatim>\<open>gzip.NewReader\<close> on the opened file, its error or
    the stream seen through \<^verbatim>\<open>tar.NewReader\<close> as the results of successive \<^verbatim>\<open>Next\<close>;
  \<^item> \<open>os_MkdirAll fs path\<close>: \<^verbatim>\<open>os.MkdirAll(path, 0755)\<close>;
  \<^item> \<open>os_Create fs path\<close>: \<^verbatim>\<open>os.Create\<close>;
  \<^item> \<open>io_Copy fs path bytes err\<close>: \<^verbatim>\<open>io.Copy(outFile, tarReader)\<close> into the file
    created at \<open>path\<close>, the entry's content being \<open>bytes\<close> followed by \<open>err\<close>.
\<close>

record 'fs os_env =
  os_Open :: "'fs \<Rightarrow> string \<Rightarrow> error + string"
  gzip_NewReader :: "string \<Rightarrow> error + tar_step list"
  os_MkdirAll :: "'fs \<Rightarrow> string \<Rightarrow> 'fs \<times> error option"
  os_Create :: "'fs \<Rightarrow> string \<Rightarrow> 'fs \<times> error option"
  io_Copy :: "'fs \<Rightarrow> string \<Rightarrow> string \<Rightarrow> error option \<Rightarrow> 'fs \<times> error option"

text \<open>
  The loop of lines 167 to 194 over the entries of the archive. It returns the error of
  \<^verbatim>\<open>untarGz\<close> (\<open>None\<close> for \<^verbatim>\<open>nil\<close> after the \<^verbatim>\<open>break\<close>), the file system
  and the output.
\<close>

fun untar_loop ::
  "'fs os_env \<Rightarrow> string \<Rightarrow> tar_step list \<Rightarrow> 'fs \<Rightarrow> out_event list
    \<Rightarrow> error option \<times> 'fs \<times> out_event list" where
  "untar_loop env dest [] fs out = (None, fs, out)"
| "untar_loop env dest (NextError e # rest) fs out = (Some e, fs, out)"
| "untar_loop env dest (NextHeader h content rerr # rest) fs out =
     (if Typeflag h = TypeDir then
        (case os_MkdirAll env fs (dest @ ''/'' @ Name h) of
           (fs1, Some e) \<Rightarrow> (Some e, fs1, out)
         | (fs1, None) \<Rightarrow> untar_loop env dest rest fs1 out)
      else if Typeflag h = TypeReg then
        (case os_Create env fs (dest @ ''/'' @ Name h) of
           (fs1, Some e) \<Rightarrow> (Some e, fs1, out)
         | (fs1, None) \<Rightarrow>
             (case io_Copy env fs1 (dest @ ''/'' @ Name h) content rerr of
                (fs2, Some e) \<Rightarrow> (Some e, fs2, out)
              | (fs2, None) \<Rightarrow> untar_loop env dest rest fs2 out))
      else untar_loop env dest rest fs (out @ [UnableToUntar (Typeflag h) (Name h)]))"

text \<open>
  \<^verbatim>\<open>untarGz(src, dest)\<close>. \<^verbatim>\<open>gzipFile.Name()\<close> is the name the file was opened with,
  \<open>src\<close>. The slice expression \<^verbatim>\<open>name[len(name)-6:]\<close> panics when its low bound is
  negative; otherwise it is the last six bytes of the name.
\<close>

definition untarGz ::
  "'fs os_env \<Rightarrow> string \<Rightarrow> string \<Rightarrow> 'fs \<Rightarrow> out_event list
    \<Rightarrow> outcome \<times> 'fs \<times> out_event list" where
  "untarGz env src dest fs out =
     (case os_Open env fs src of
        Inl e \<Rightarrow> (Returned (Some e), fs, out)
      | Inr bytes \<Rightarrow>
          if length src < 6 then (Panicked ''slice bounds out of range'', fs, out)
          else if drop (length src - 6) src \<noteq> ''.tar.gz'' then (Returned None, fs, out)
          else
            (case gzip_NewReader env bytes of
               Inl e \<Rightarrow> (Returned (Some e), fs, out)
             | Inr steps \<Rightarrow>
                 (case untar_loop env dest steps fs out of
                    (r, fs1, out1) \<Rightarrow> (Returned r, fs1, out1))))"

subsection \<open>A file system in memory, to run the model on\<close>

text \<open>
  The theorems below hold for every environment. To evaluate the model at concrete inputs
  this section gives one environment: a file system that maps a path to a directory or
  to the bytes of a file. Creating a directory fails where a file stands, creating a file
  fails where a directory stands, and copying stores the bytes that were read. The gzip
  and tar decoder is left to the caller of \<open>mem_env\<close>.
\<close>

datatype node = Dir | File string

type_synonym mem_fs = "string \<Rightarrow> node option"

definition strip_slash :: "string \<Rightarrow> string" where
  "strip_slash p = (if p \<noteq> [] \<and> last p = CHR ''/'' then butlast p else p)"

definition mem_Open :: "mem_fs \<Rightarrow> string \<Rightarrow> error + string" where
  "mem_Open fs p =
     (case fs p of
        Some (File b) \<Rightarrow> Inr b
      | Some Dir \<Rightarrow> Inr []
      | None \<Rightarrow> Inl (Error ''no such file or directory''))"

definition mem_MkdirAll :: "mem_fs \<Rightarrow> string \<Rightarrow> mem_fs \<times> error option" where
  "mem_MkdirAll fs p =
     (case fs (strip_slash p) of
        Some (File b) \<Rightarrow> (fs, Some (Error ''not a directory''))
      | _ \<Rightarrow> (fs(strip_slash p \<mapsto> Dir), None))"

definition mem_Create :: "mem_fs \<Rightarrow> string \<Rightarrow> mem_fs \<times> error option" where
  "mem_Create fs p =
     (case fs p of
        Some Dir \<Rightarrow> (fs, Some (Error ''is a directory''))
      | _ \<Rightarrow> (fs(p \<mapsto> File []), None))"

definition mem_Copy ::
  "mem_fs \<Rightarrow> string \<Rightarrow> string \<Rightarrow> error option \<Rightarrow> mem_fs \<times> error option" where
  "mem_Copy fs p bytes rerr = (fs(p \<mapsto> File bytes), rerr)"

definition mem_env :: "(string \<Rightarrow> error + tar_step list) \<Rightarrow> mem_fs os_env" where
  "mem_env gz =
     \<lparr>os_Open = mem_Open, gzip_NewReader = gz, os_MkdirAll = mem_MkdirAll,
      os_Create = mem_Create, io_Copy = mem_Copy\<rparr>"

text \<open>
  The archive of the specification's example: the directory \<^verbatim>\<open>a/\<close> and the file
  \<^verbatim>\<open>a/b.txt\<close> holding \<^verbatim>\<open>hello\<close>. The bytes of its compressed form are stood for
  by the string \<^verbatim>\<open><hello.tar.gz>\<close>, which \<open>hello_gzip\<close> decodes.
\<close>

definition hello_archive :: "tar_step list" where
  "hello_archive =
     [NextHeader \<lparr>Typeflag = TypeDir, Name = ''a/''\<rparr> [] None,
      NextHeader \<lparr>Typeflag = TypeReg, Name = ''a/b.txt''\<rparr> ''hello'' None]"

definition hello_gzip :: "string \<Rightarrow> error + tar_step list" where
  "hello_gzip b =
     (if b = ''<hello.tar.gz>'' then Inr hello_archive else Inl (Error ''gzip: invalid header''))"

definition hello_fs :: mem_fs where
  "hello_fs =
     [''D'' \<mapsto> Dir, ''D/p.tar.gz'' \<mapsto> File ''<hello.tar.gz>'',
      ''D/info.txt'' \<mapsto> File ''v1'', ''a.txt'' \<mapsto> File ''v1'', ''x'' \<mapsto> File []]"

text \<open>
  An archive with an entry of another kind (a symbolic link, type flag 2), a failing
  \<^verbatim>\<open>Next\<close> and an entry after it.
\<close>

definition broken_archive :: "tar_step list" where
  "broken_archive =
     [NextHeader \<lparr>Typeflag = CHR ''2'', Name = ''l''\<rparr> [] None,
      NextHeader \<lparr>Typeflag = TypeDir, Name = ''a/''\<rparr> [] None,
      NextError (Error ''unexpected EOF''),
      NextHeader \<lparr>Typeflag = TypeReg, Name = ''a/b.txt''\<rparr> ''hello'' None]"

text \<open>
  Three archives whose pass ends at a failing call of the operating system, each with an
  entry after the failing one: a directory \<^verbatim>\<open>a/\<close> where the archive has just put a
  file \<^verbatim>\<open>a\<close>; a file \<^verbatim>\<open>a\<close> where it has just put a directory; and a file whose
  content breaks off while it is copied.
\<close>

definition mkdir_blocked :: "tar_step list" where
  "mkdir_blocked =
     [NextHeader \<lparr>Typeflag = CHR ''2'', Name = ''l''\<rparr> [] None,
      NextHeader \<lparr>Typeflag = TypeReg, Name = ''a''\<rparr> ''x'' None,
      NextHeader \<lparr>Typeflag = TypeDir, Name = ''a/''\<rparr> [] None,
      NextHeader \<lparr>Typeflag = TypeReg, Name = ''b''\<rparr> ''y'' None]"

definition create_blocked :: "tar_step list" where
  "create_blocked =
     [NextHeader \<lparr>Typeflag = TypeDir, Name = ''a/''\<rparr> [] None,
      NextHeader \<lparr>Typeflag = TypeReg, Name = ''a''\<rparr> ''x'' None,
      NextHeader \<lparr>Typeflag = TypeDir, Name = ''c/''\<rparr> [] None]"

definition copy_broken :: "tar_step list" where
  "copy_broken =
     [NextHeader \<lparr>Typeflag = TypeReg, Name = ''b''\<rparr> ''he'' (Some (Error ''unexpected EOF'')),
      NextHeader \<lparr>Typeflag = TypeDir, Name = ''c/''\<rparr> [] None]"

section \<open>Download: \<^verbatim>\<open>downloadFile\<close> and \<^verbatim>\<open>run\<close>\<close>

text \<open>
  The fields of \<^verbatim>\<open>ProgressBar\<close> and \<^verbatim>\<open>ProgressBarWindow\<close> that are not widgets.
  \<^verbatim>\<open>total\<close> and \<^verbatim>\<open>current\<close> are \<^verbatim>\<open>int64\<close>: they are kept as integers and
  every addition and subtraction on them is wrapped by \<open>wrap64\<close>.
\<close>

record ProgressBar =
  pb_order :: int
  pb_total :: int
  pb_current :: int
  pb_file :: string

record ProgressBarWindow =
  bars :: "ProgressBar list"
  maxNameWidth :: int

definition wrap64 :: "int \<Rightarrow> int" where
  "wrap64 x = (x + 2 ^ 63) mod 2 ^ 64 - 2 ^ 63"

definition NewProgressBar :: "int \<Rightarrow> string \<Rightarrow> int \<Rightarrow> ProgressBar" where
  "NewProgressBar order file width =
     \<lparr>pb_order = order, pb_total = 0, pb_current = 0, pb_file = file\<rparr>"

definition calculateMaxNameWidth :: "ProgressBarWindow \<Rightarrow> ProgressBarWindow" where
  "calculateMaxNameWidth p =
     p\<lparr>maxNameWidth :=
         fold (\<lambda>file w. if int (length file) > w then int (length file) else w)
           files (maxNameWidth p)\<rparr>"

definition initProgressBars :: "ProgressBarWindow \<Rightarrow> ProgressBarWindow" where
  "initProgressBars p =
     p\<lparr>bars :=
         bars p @ map (\<lambda>(i, file). NewProgressBar (int i + 1) file (maxNameWidth p))
           (enumerate 0 files)\<rparr>"

text \<open>
  \<^verbatim>\<open>p.bars[order-1]\<close>: an index outside the slice is a run-time panic, \<open>None\<close> here.
\<close>

definition bar_at :: "ProgressBarWindow \<Rightarrow> int \<Rightarrow> ProgressBar option" where
  "bar_at p order =
     (if 1 \<le> order \<and> order \<le> int (length (bars p)) then Some (bars p ! nat (order - 1))
      else None)"

subsection \<open>The clock\<close>

text \<open>
  A reading of \<^verbatim>\<open>time.Now()\<close> is a number of nanoseconds. \<^verbatim>\<open>now.Sub(lastTime)\<close> is
  a \<^verbatim>\<open>Duration\<close>, a 64-bit count of nanoseconds: the difference, or the largest or
  smallest \<^verbatim>\<open>Duration\<close> when the difference does not fit.
  \<^verbatim>\<open>Seconds()\<close> of a duration is at least 1 exactly when the duration is at least
  \<open>10\<^sup>9\<close> nanoseconds, which is how the test \<^verbatim>\<open>elapsed >= 1\<close> is written below.
\<close>

definition maxDuration :: int where
  "maxDuration = 2 ^ 63 - 1"

definition minDuration :: int where
  "minDuration = - (2 ^ 63)"

definition time_Sub :: "int \<Rightarrow> int \<Rightarrow> int" where
  "time_Sub t u =
     (if maxDuration < t - u then maxDuration
      else if t - u < minDuration then minDuration
      else t - u)"

definition Second :: int where
  "Second = 1000000000"

subsection \<open>The percentage\<close>

text \<open>
  \<^verbatim>\<open>updateProgressBar\<close> computes in \<^verbatim>\<open>float32\<close>. The rounding of a real number to
  \<^verbatim>\<open>float32\<close> is the parameter \<open>rnd\<close>: the conversions of \<^verbatim>\<open>current\<close> and
  \<^verbatim>\<open>total\<close>, the quotient and the product are each rounded once (the constant 100 is
  a \<^verbatim>\<open>float32\<close>). Division by a zero \<^verbatim>\<open>float32(total)\<close> gives an infinity or a
  NaN, and \<^verbatim>\<open>int(percent)\<close> of a value that does not fit is not fixed by the
  language; both are \<open>None\<close>. Otherwise \<^verbatim>\<open>int(percent)\<close> drops the fraction.
  The result is the argument of \<^verbatim>\<open>progressBar.SetValue\<close>.
\<close>

definition go_int :: "real \<Rightarrow> int option" where
  "go_int x =
     (if - (2 ^ 63) \<le> x \<and> x < 2 ^ 63 then Some (if 0 \<le> x then \<lfloor>x\<rfloor> else \<lceil>x\<rceil>)
      else None)"

definition updateProgressBar :: "(real \<Rightarrow> real) \<Rightarrow> int \<Rightarrow> int \<Rightarrow> int option" where
  "updateProgressBar rnd current total' =
     (if rnd (real_of_int total') = 0 then None
      else go_int (rnd (rnd (rnd (real_of_int current) / rnd (real_of_int total')) * 100)))"

subsection \<open>What the task shows and the state of its loop\<close>

text \<open>
  \<^verbatim>\<open>updateSpeedLabel(label, speed)\<close> is called with
  \<^verbatim>\<open>speed = float64(current - lastBytes) / elapsed\<close>. The event keeps the two operands
  of that division, \<open>s_bytes\<close> and \<open>s_elapsed\<close> (the duration in nanoseconds), and, to
  state when it was emitted, the clock reading \<open>s_at\<close> and the counter \<open>s_current\<close> of
  that moment.
\<close>

record sample =
  s_at :: int
  s_current :: int
  s_bytes :: int
  s_elapsed :: int

datatype ui_event =
    UpdateSpeedLabel sample
  | SetValue "int option"

text \<open>
  One turn of the loop of line 222, as the environment decides it: the result
  \<open>(rd_n, rd_err)\<close> of \<^verbatim>\<open>resp.Body.Read(buf)\<close>, with \<open>rd_n\<close> at most 1024, and, for
  a turn with \<open>rd_n > 0\<close>, the number \<open>wr_n\<close> of bytes that \<^verbatim>\<open>out.Write(buf[:n])\<close>
  stored (fewer than \<open>rd_n\<close> when the write failed) and the reading \<open>t_now\<close> of
  \<^verbatim>\<open>time.Now()\<close>.
\<close>

datatype read_err = NoErr | EOF | ReadErr error

record read_step =
  rd_n :: nat
  rd_err :: read_err
  wr_n :: nat
  t_now :: int

text \<open>
  The state of one call: its progress bar, its locals \<^verbatim>\<open>lastTime\<close> and
  \<^verbatim>\<open>lastBytes\<close>, the number of bytes stored in the destination file, what it showed
  and what it printed.
\<close>

record dl_state =
  bar :: ProgressBar
  lastTime :: int
  lastBytes :: int
  written :: nat
  ui :: "ui_event list"
  stdout :: "out_event list"

text \<open>Lines 225 to 235: the body of \<^verbatim>\<open>if n > 0\<close>.\<close>

definition on_chunk :: "(real \<Rightarrow> real) \<Rightarrow> read_step \<Rightarrow> dl_state \<Rightarrow> dl_state" where
  "on_chunk rnd r s =
     (let cur = wrap64 (pb_current (bar s) + int (rd_n r));
          elapsed = time_Sub (t_now r) (lastTime s);
          s1 = s\<lparr>written := written s + min (wr_n r) (rd_n r),
                 bar := (bar s)\<lparr>pb_current := cur\<rparr>\<rparr>;
          s2 = (if Second \<le> elapsed
                then s1\<lparr>ui := ui s1 @
                          [UpdateSpeedLabel
                             \<lparr>s_at = t_now r, s_current = cur,
                              s_bytes = wrap64 (cur - lastBytes s1), s_elapsed = elapsed\<rparr>],
                        lastBytes := cur, lastTime := t_now r\<rparr>
                else s1)
      in s2\<lparr>ui := ui s2 @ [SetValue (updateProgressBar rnd cur (pb_total (bar s2)))]\<rparr>)"

text \<open>
  The loop of lines 222 to 244 over the turns the environment supplies. A list that ends
  before a read returned an error is a transfer that has not ended: the call is still in
  \<^verbatim>\<open>Read\<close>.
\<close>

datatype loop_exit = AtEOF | ReadFailed error | StillReading

fun read_loop ::
  "(real \<Rightarrow> real) \<Rightarrow> string \<Rightarrow> read_step list \<Rightarrow> dl_state \<Rightarrow> loop_exit \<times> dl_state" where
  "read_loop rnd file [] s = (StillReading, s)"
| "read_loop rnd file (r # rs) s =
     (let s1 = (if 0 < rd_n r then on_chunk rnd r s else s) in
      case rd_err r of
        EOF \<Rightarrow> (AtEOF, s1)
      | ReadErr e \<Rightarrow> (ReadFailed e, s1\<lparr>stdout := stdout s1 @ [ErrorWriting file e]\<rparr>)
      | NoErr \<Rightarrow> read_loop rnd file rs s1)"

text \<open>
  What the environment does to one task: the error of \<^verbatim>\<open>os.Create\<close> and of
  \<^verbatim>\<open>http.Get\<close> (\<open>None\<close> for success), \<^verbatim>\<open>resp.ContentLength\<close> (\<open>-1\<close> when the
  length is unknown), the reading of \<^verbatim>\<open>time.Now()\<close> at line 217 and the turns of the
  loop.
\<close>

record task_env =
  create_err :: "error option"
  get_err :: "error option"
  ContentLength :: int
  t_start :: int
  body :: "read_step list"

datatype dl_exit = CreateFailed | GetFailed | IndexPanic | BodyFailed error | Completed | Unfinished

text \<open>
  The result of a call: how it ended, the values it sent on the channel \<^verbatim>\<open>done\<close>, and
  its last state. Until line 214 the state holds the task's bar untouched (a fresh one
  where \<open>p\<close> has none at that index) and the file is empty.
\<close>

record dl_result =
  exit_of :: dl_exit
  sent :: "bool list"
  final :: dl_state

definition downloadFile ::
  "(real \<Rightarrow> real) \<Rightarrow> task_env \<Rightarrow> ProgressBarWindow \<Rightarrow> string \<Rightarrow> string \<Rightarrow> int \<Rightarrow> dl_result" where
  "downloadFile rnd env p directory file order =
     (let s0 = \<lparr>bar = (case bar_at p order of Some b \<Rightarrow> b | None \<Rightarrow> NewProgressBar order file 0),
                lastTime = 0, lastBytes = 0, written = 0, ui = [], stdout = []\<rparr> in
      case create_err env of
        Some e \<Rightarrow>
          \<lparr>exit_of = CreateFailed, sent = [], final = s0\<lparr>stdout := [ErrorCreating file]\<rparr>\<rparr>
      | None \<Rightarrow>
          (case get_err env of
             Some e \<Rightarrow>
               \<lparr>exit_of = GetFailed, sent = [],
                final = s0\<lparr>stdout := [ErrorDownloading file]\<rparr>\<rparr>
           | None \<Rightarrow>
               (case bar_at p order of
                  None \<Rightarrow> \<lparr>exit_of = IndexPanic, sent = [], final = s0\<rparr>
                | Some progressBar \<Rightarrow>
                    (case read_loop rnd file (body env)
                            (s0\<lparr>bar := progressBar\<lparr>pb_total := ContentLength env\<rparr>,
                                lastTime := t_start env, lastBytes := 0\<rparr>) of
                       (AtEOF, s) \<Rightarrow> \<lparr>exit_of = Completed, sent = [True], final = s\<rparr>
                     | (ReadFailed e, s) \<Rightarrow> \<lparr>exit_of = BodyFailed e, sent = [], final = s\<rparr>
                     | (StillReading, s) \<Rightarrow> \<lparr>exit_of = Unfinished, sent = [], final = s\<rparr>))))"

text \<open>
  \<^verbatim>\<open>run\<close>: one call of \<^verbatim>\<open>downloadFile\<close> per file, each with its own environment and
  its own progress bar, so that the order in which the goroutines run does not change
  what each of them does. The loop of line 132 receives \<open>length files\<close> values from
  \<^verbatim>\<open>done\<close>: with fewer values sent it never ends. The file system \<open>fs\<close> is the one the
  downloads left.
\<close>

datatype 'fs run_result =
    RunPanicked
  | WaitingOnDone nat
  | RunReturned 'fs "out_event list"

fun untar_all ::
  "'fs os_env \<Rightarrow> string \<Rightarrow> string list \<Rightarrow> 'fs \<Rightarrow> out_event list \<Rightarrow> 'fs run_result" where
  "untar_all os directory [] fs out = RunReturned fs out"
| "untar_all os directory (file # rest) fs out =
     (case untarGz os (directory @ ''/'' @ file) directory fs (out @ [Untarring file]) of
        (Panicked m, fs1, out1) \<Rightarrow> RunPanicked
      | (Returned None, fs1, out1) \<Rightarrow> untar_all os directory rest fs1 out1
      | (Returned (Some e), fs1, out1) \<Rightarrow>
          untar_all os directory rest fs1 (out1 @ [ErrorUntarring file e]))"

definition run ::
  "(real \<Rightarrow> real) \<Rightarrow> (string \<Rightarrow> task_env) \<Rightarrow> 'fs os_env \<Rightarrow> ProgressBarWindow \<Rightarrow> string \<Rightarrow> 'fs
    \<Rightarrow> 'fs run_result" where
  "run rnd tenv os p directory fs =
     (let results =
            map (\<lambda>(i, file). downloadFile rnd (tenv file) p directory file (int i + 1))
              (enumerate 0 files);
          received = concat (map sent results)
      in if IndexPanic \<in> set (map exit_of results) then RunPanicked
         else if length received < length files then WaitingOnDone (length received)
         else untar_all os directory files fs [])"

subsection \<open>Observations on a task\<close>

text \<open>
  The turns the loop takes: up to and including the first whose read returned an error.
\<close>

fun consumed :: "read_step list \<Rightarrow> read_step list" where
  "consumed [] = []"
| "consumed (r # rs) = (if rd_err r = NoErr then r # consumed rs else [r])"

text \<open>The values of \<^verbatim>\<open>current\<close> after each turn with \<open>rd_n > 0\<close>, from \<open>c\<close> on.\<close>

fun totals :: "int \<Rightarrow> read_step list \<Rightarrow> int list" where
  "totals c [] = []"
| "totals c (r # rs) =
     (if 0 < rd_n r then wrap64 (c + int (rd_n r)) # totals (wrap64 (c + int (rd_n r))) rs
      else totals c rs)"

text \<open>The arguments of \<^verbatim>\<open>SetValue\<close>, and the speed samples, in the order shown.\<close>

fun reported :: "ui_event list \<Rightarrow> int option list" where
  "reported [] = []"
| "reported (SetValue v # es) = v # reported es"
| "reported (UpdateSpeedLabel x # es) = reported es"

fun samples :: "ui_event list \<Rightarrow> sample list" where
  "samples [] = []"
| "samples (UpdateSpeedLabel x # es) = x # samples es"
| "samples (SetValue v # es) = samples es"

text \<open>
  What the specification asks of the samples of a task, read from the baseline
  \<open>(t, b)\<close> (the time and the counter of the last sample, at first the start of the
  transfer and 0): a sample comes at least one second after the baseline, its operands
  are the bytes since the baseline and the time since the baseline, and it is the
  baseline of the sample after it.
\<close>

fun samples_ok :: "int \<Rightarrow> int \<Rightarrow> sample list \<Rightarrow> bool" where
  "samples_ok t b [] = True"
| "samples_ok t b (x # xs) =
     (Second \<le> s_at x - t \<and> s_bytes x = wrap64 (s_current x - b) \<and>
      s_elapsed x = time_Sub (s_at x) t \<and> samples_ok (s_at x) (s_current x) xs)"

subsection \<open>Environments to run a task on\<close>

definition window :: ProgressBarWindow where
  "window = initProgressBars (calculateMaxNameWidth \<lparr>bars = [], maxNameWidth = 0\<rparr>)"

definition step :: "nat \<Rightarrow> read_err \<Rightarrow> nat \<Rightarrow> int \<Rightarrow> read_step" where
  "step n e w t = \<lparr>rd_n = n, rd_err = e, wr_n = w, t_now = t\<rparr>"

definition task :: "int \<Rightarrow> read_step list \<Rightarrow> task_env" where
  "task len rs =
     \<lparr>create_err = None, get_err = None, ContentLength = len, t_start = 0, body = rs\<rparr>"

text \<open>
  On the small whole numbers of the examples below every \<^verbatim>\<open>float32\<close> operation is
  exact: there the rounding is the identity.
\<close>

definition exact :: "real \<Rightarrow> real" where
  "exact x = x"

text \<open>
  Three ways for a task to fail: the file cannot be created, the request fails, the body
  breaks after one byte; and a task that succeeds.
\<close>

definition no_file :: task_env where
  "no_file = (task 2 [])\<lparr>create_err := Some (Error ''permission denied'')\<rparr>"

definition no_network :: task_env where
  "no_network = (task 2 [])\<lparr>get_err := Some (Error ''no route to host'')\<rparr>"

definition broken_stream :: task_env where
  "broken_stream = task 2 [step 1 (ReadErr (Error ''connection reset'')) 1 5]"

definition two_bytes :: task_env where
  "two_bytes = task 2 [step 2 EOF 2 5]"

text \<open>
  A body of five bytes of which \<^verbatim>\<open>out.Write\<close> stores none (the disk is full), then the
  end of the stream.
\<close>

definition lost_write :: task_env where
  "lost_write = task 5 [step 5 NoErr 0 1, step 0 EOF 0 2]"

text \<open>
  Bodies of a response without a declared length (\<^verbatim>\<open>ContentLength\<close> is \<open>-1\<close>), a
  body of ten bytes in two reads, and a body of sixteen bytes in four reads over two seconds.
\<close>

definition unknown_one :: task_env where
  "unknown_one = task (- 1) [step 1 EOF 1 5]"

definition unknown_two :: task_env where
  "unknown_two = task (- 1) [step 1 NoErr 1 5, step 1 EOF 1 6]"

definition unknown_three :: task_env where
  "unknown_three = task (- 1) [step 3 NoErr 3 5, step 0 NoErr 0 6, step 2 EOF 2 7]"

definition ten_bytes :: task_env where
  "ten_bytes = task 10 [step 5 NoErr 5 5, step 5 EOF 5 6]"

definition two_seconds :: task_env where
  "two_seconds =
     task 16
       [step 4 NoErr 4 5, step 4 NoErr 4 1000000006, step 4 NoErr 4 1500000000,
        step 4 EOF 4 2000000006]"

section \<open>Properties of the extraction\<close>

subsection \<open>The suffix test\<close>

text \<open>
  The last six bytes of a name are never the seven bytes of \<^verbatim>\<open>.tar.gz\<close>, so the test
  of line 155 succeeds for every name it can slice.
\<close>

lemma drop_six_not_suffix:
  assumes "6 \<le> length src"
  shows "drop (length src - 6) src \<noteq> ''.tar.gz''"
proof
  assume eq: "drop (length src - 6) src = ''.tar.gz''"
  have "length (drop (length src - 6) src) = 6"
    using assms by simp
  with eq show False by simp
qed

lemma untarGz_skips_every_long_name:
  assumes "os_Open env fs src = Inr bytes" and "6 \<le> length src"
  shows "untarGz env src dest fs out = (Returned None, fs, out)"
  using assms drop_six_not_suffix [of src] by (simp add: untarGz_def)

text \<open>
  C1. The claim: a source file named \<^verbatim>\<open>*.tar.gz\<close> that holds a well-formed archive is
  unpacked under the destination, and the archive with the directory \<^verbatim>\<open>a/\<close> and the
  file \<^verbatim>\<open>a/b.txt\<close> = \<^verbatim>\<open>hello\<close> gives \<^verbatim>\<open>D/a/\<close> and \<^verbatim>\<open>D/a/b.txt\<close>.
  The code at that input: \<^verbatim>\<open>D/p.tar.gz\<close> opens and decodes to that archive, and
  \<^verbatim>\<open>untarGz\<close> returns \<^verbatim>\<open>nil\<close> with the file system as it was, in which neither
  \<^verbatim>\<open>D/a\<close> nor \<^verbatim>\<open>D/a/b.txt\<close> exists; the loop of lines 167 to 194, had it been
  reached, would have created both.
\<close>

theorem untarGz_leaves_hello_archive_packed:
  "mem_Open hello_fs ''D/p.tar.gz'' = Inr ''<hello.tar.gz>'' \<and>
   hello_gzip ''<hello.tar.gz>'' = Inr hello_archive \<and>
   untarGz (mem_env hello_gzip) ''D/p.tar.gz'' ''D'' hello_fs [] = (Returned None, hello_fs, []) \<and>
   hello_fs ''D/a'' = None \<and> hello_fs ''D/a/b.txt'' = None \<and>
   untar_loop (mem_env hello_gzip) ''D'' hello_archive hello_fs [] =
     (None, hello_fs(''D/a'' \<mapsto> Dir, ''D/a/b.txt'' \<mapsto> File ''hello''), [])"
  by (simp add: untarGz_def mem_env_def mem_Open_def mem_MkdirAll_def mem_Create_def
      mem_Copy_def strip_slash_def hello_gzip_def hello_archive_def hello_fs_def
      TypeDir_def TypeReg_def)

text \<open>
  Every path that \<^verbatim>\<open>run\<close> builds at line 139, a directory, a slash and one of the
  configured file names, has six bytes or more.
\<close>

lemma configured_paths_are_long:
  assumes "file \<in> set files"
  shows "6 \<le> length (directory @ ''/'' @ file)"
  using assms by (auto simp: files_def)

text \<open>
  C8. For every input file of the program (a configured file name under any directory,
  passed as line 139 passes it) whose name does not end in \<^verbatim>\<open>.tar.gz\<close> and whose file
  opens, \<^verbatim>\<open>untarGz\<close> returns \<^verbatim>\<open>nil\<close> and leaves the file system, the destination
  directory with it, and the output as they were.
\<close>

theorem untarGz_skips_non_archive_files:
  assumes "file \<in> set files"
    and "\<not> (\<exists>pre. directory @ ''/'' @ file = pre @ ''.tar.gz'')"
    and "os_Open env fs (directory @ ''/'' @ file) = Inr bytes"
  shows "untarGz env (directory @ ''/'' @ file) dest fs out = (Returned None, fs, out)"
  using untarGz_skips_every_long_name [OF assms(3) configured_paths_are_long [OF assms(1)]] .

theorem untarGz_skips_non_archive_files_witness:
  "''info.txt'' \<in> set files \<and>
   \<not> (\<exists>pre. ''D'' @ ''/'' @ ''info.txt'' = pre @ ''.tar.gz'') \<and>
   os_Open (mem_env hello_gzip) hello_fs (''D'' @ ''/'' @ ''info.txt'') = Inr ''v1'' \<and>
   untarGz (mem_env hello_gzip) (''D'' @ ''/'' @ ''info.txt'') ''D'' hello_fs [] =
     (Returned None, hello_fs, [])"
proof -
  have conf: "''info.txt'' \<in> set files"
    by (simp add: files_def)
  have non: "\<not> (\<exists>pre. ''D'' @ ''/'' @ ''info.txt'' = pre @ ''.tar.gz'')"
  proof
    assume "\<exists>pre. ''D'' @ ''/'' @ ''info.txt'' = pre @ ''.tar.gz''"
    then obtain pre where "''D'' @ ''/'' @ ''info.txt'' = pre @ ''.tar.gz''" ..
    then have "last (''D'' @ ''/'' @ ''info.txt'') = last (pre @ ''.tar.gz'')"
      by (rule arg_cong)
    then show False by simp
  qed
  have opened: "os_Open (mem_env hello_gzip) hello_fs (''D'' @ ''/'' @ ''info.txt'') = Inr ''v1''"
    by (simp add: mem_env_def mem_Open_def hello_fs_def)
  show ?thesis
    using conf non opened
      untarGz_skips_non_archive_files [OF conf non opened, of "''D''" "[]"]
    by (intro conjI)
qed

text \<open>
  C9. For every source path shorter than six bytes whose file opens, \<^verbatim>\<open>untarGz\<close>
  panics at the slice of line 155: it returns neither an error nor \<^verbatim>\<open>nil\<close>, and the
  file system and the output are as they were.
\<close>

theorem untarGz_short_name_panics:
  assumes "os_Open env fs src = Inr bytes" and "length src < 6"
  shows "untarGz env src dest fs out = (Panicked ''slice bounds out of range'', fs, out)"
  using assms by (simp add: untarGz_def)

theorem untarGz_short_name_panics_witness:
  "os_Open (mem_env hello_gzip) hello_fs ''x'' = Inr [] \<and> length ''x'' < 6 \<and>
   untarGz (mem_env hello_gzip) ''x'' ''D'' hello_fs [] =
     (Panicked ''slice bounds out of range'', hello_fs, [])"
proof -
  have opened: "os_Open (mem_env hello_gzip) hello_fs ''x'' = Inr []"
    by (simp add: mem_env_def mem_Open_def hello_fs_def)
  have short: "length ''x'' < 6"
    by simp
  show ?thesis
    using opened short untarGz_short_name_panics [OF opened short, of "''D''" "[]"] by simp
qed

text \<open>
  C10. \<^verbatim>\<open>untarGz\<close> opens the source before it looks at the name: when \<^verbatim>\<open>os.Open\<close>
  fails, whatever the name is (a name of a file that is no archive included), the call
  returns the error of \<^verbatim>\<open>os.Open\<close>, not \<^verbatim>\<open>nil\<close>, and changes nothing.
\<close>

theorem untarGz_returns_open_error:
  assumes "os_Open env fs src = Inl e"
  shows "untarGz env src dest fs out = (Returned (Some e), fs, out)"
  using assms by (simp add: untarGz_def)

theorem untarGz_returns_open_error_witness:
  "os_Open (mem_env hello_gzip) hello_fs ''D/notes.txt'' =
     Inl (Error ''no such file or directory'') \<and>
   untarGz (mem_env hello_gzip) ''D/notes.txt'' ''D'' hello_fs [] =
     (Returned (Some (Error ''no such file or directory'')), hello_fs, [])"
proof -
  have missing: "os_Open (mem_env hello_gzip) hello_fs ''D/notes.txt'' =
      Inl (Error ''no such file or directory'')"
    by (simp add: mem_env_def mem_Open_def hello_fs_def)
  show ?thesis
    using missing untarGz_returns_open_error [OF missing, of "''D''" "[]"] by simp
qed

subsection \<open>The loop over the entries\<close>

text \<open>A pass over a list of entries is the pass over its front followed, when that
  ended without an error, by the pass over its back.\<close>

lemma untar_loop_append:
  "untar_loop env dest (pre @ rest) fs out =
     (case untar_loop env dest pre fs out of
        (None, fs1, out1) \<Rightarrow> untar_loop env dest rest fs1 out1
      | (Some e, fs1, out1) \<Rightarrow> (Some e, fs1, out1))"
proof (induction pre arbitrary: fs out)
  case Nil
  show ?case by simp
next
  case (Cons s pre)
  show ?case
  proof (cases s)
    case (NextError e)
    then show ?thesis by simp
  next
    case (NextHeader h c r)
    then show ?thesis
      using Cons.IH by (simp split: prod.splits option.splits)
  qed
qed

lemma untar_loop_Cons:
  "untar_loop env dest (s # rest) fs out =
     (case untar_loop env dest [s] fs out of
        (None, fs1, out1) \<Rightarrow> untar_loop env dest rest fs1 out1
      | (Some e, fs1, out1) \<Rightarrow> (Some e, fs1, out1))"
  using untar_loop_append [of env dest "[s]" rest fs out] by simp

lemma untar_loop_error_splits:
  assumes "untar_loop env dest steps fs out = (Some e, fs', out')"
  shows "\<exists>pre s rest fs1 out1.
           steps = pre @ s # rest \<and>
           untar_loop env dest pre fs out = (None, fs1, out1) \<and>
           untar_loop env dest [s] fs1 out1 = (Some e, fs', out')"
  using assms
proof (induction steps arbitrary: fs out)
  case Nil
  then show ?case by simp
next
  case (Cons s steps)
  show ?case
  proof (cases "untar_loop env dest [s] fs out")
    case (fields r fs1 out1)
    show ?thesis
    proof (cases r)
      case None
      have "untar_loop env dest (s # steps) fs out = untar_loop env dest steps fs1 out1"
        using fields None by (simp add: untar_loop_Cons [of env dest s steps])
      with Cons.prems have "untar_loop env dest steps fs1 out1 = (Some e, fs', out')"
        by simp
      from Cons.IH [OF this] obtain pre t rest fs2 out2 where
        st: "steps = pre @ t # rest"
        and pre: "untar_loop env dest pre fs1 out1 = (None, fs2, out2)"
        and t: "untar_loop env dest [t] fs2 out2 = (Some e, fs', out')"
        by blast
      have "untar_loop env dest (s # pre) fs out = (None, fs2, out2)"
        using fields None pre by (simp add: untar_loop_Cons [of env dest s pre])
      moreover have "s # steps = (s # pre) @ t # rest"
        using st by simp
      ultimately show ?thesis
        using t by blast
    next
      case (Some e1)
      have "untar_loop env dest (s # steps) fs out = (Some e1, fs1, out1)"
        using fields Some by (simp add: untar_loop_Cons [of env dest s steps])
      with Cons.prems have "(Some e1, fs1, out1) = (Some e, fs', out')"
        by simp
      then have "untar_loop env dest [s] fs out = (Some e, fs', out')"
        using fields Some by simp
      moreover have "s # steps = [] @ s # steps" by simp
      moreover have "untar_loop env dest [] fs out = (None, fs, out)" by simp
      ultimately show ?thesis by blast
    qed
  qed
qed

text \<open>
  What makes one entry end the pass: a failing \<^verbatim>\<open>Next\<close>, \<^verbatim>\<open>MkdirAll\<close>,
  \<^verbatim>\<open>Create\<close> or \<^verbatim>\<open>Copy\<close>, and nothing else. The output is not touched.
\<close>

lemma untar_loop_entry_fails:
  "untar_loop env dest [s] fs1 out1 = (Some e, fs', out') \<longleftrightarrow>
     out' = out1 \<and>
     (s = NextError e \<and> fs' = fs1 \<or>
      (\<exists>h c r. s = NextHeader h c r \<and> Typeflag h = TypeDir \<and>
         os_MkdirAll env fs1 (dest @ ''/'' @ Name h) = (fs', Some e)) \<or>
      (\<exists>h c r. s = NextHeader h c r \<and> Typeflag h \<noteq> TypeDir \<and> Typeflag h = TypeReg \<and>
         os_Create env fs1 (dest @ ''/'' @ Name h) = (fs', Some e)) \<or>
      (\<exists>h c r fs2. s = NextHeader h c r \<and> Typeflag h \<noteq> TypeDir \<and> Typeflag h = TypeReg \<and>
         os_Create env fs1 (dest @ ''/'' @ Name h) = (fs2, None) \<and>
         io_Copy env fs2 (dest @ ''/'' @ Name h) c r = (fs', Some e)))"
proof (cases s)
  case (NextError e1)
  then show ?thesis by auto
next
  case (NextHeader h c r)
  then show ?thesis
    by (auto split: prod.splits option.splits)
qed

text \<open>
  The pass returns an error exactly when some entry fails after a front that was processed
  without error; the error, the file system and the output are those of that entry.
\<close>

lemma untar_loop_error_iff:
  "untar_loop env dest steps fs out = (Some e, fs', out') \<longleftrightarrow>
      (\<exists>pre s rest fs1.
          steps = pre @ s # rest \<and>
          untar_loop env dest pre fs out = (None, fs1, out') \<and>
          (s = NextError e \<and> fs' = fs1 \<or>
           (\<exists>h c r. s = NextHeader h c r \<and> Typeflag h = TypeDir \<and>
              os_MkdirAll env fs1 (dest @ ''/'' @ Name h) = (fs', Some e)) \<or>
           (\<exists>h c r. s = NextHeader h c r \<and> Typeflag h \<noteq> TypeDir \<and> Typeflag h = TypeReg \<and>
              os_Create env fs1 (dest @ ''/'' @ Name h) = (fs', Some e)) \<or>
           (\<exists>h c r fs2. s = NextHeader h c r \<and> Typeflag h \<noteq> TypeDir \<and> Typeflag h = TypeReg \<and>
              os_Create env fs1 (dest @ ''/'' @ Name h) = (fs2, None) \<and>
              io_Copy env fs2 (dest @ ''/'' @ Name h) c r = (fs', Some e))))"
  (is "?L \<longleftrightarrow> (\<exists>pre s rest fs1. ?split pre s rest \<and> ?front pre fs1 \<and> ?fails s fs1)")
proof
  assume res: ?L
  from untar_loop_error_splits [OF res] obtain pre s rest fs1 out1 where
    st: "steps = pre @ s # rest"
    and pre: "untar_loop env dest pre fs out = (None, fs1, out1)"
    and s: "untar_loop env dest [s] fs1 out1 = (Some e, fs', out')"
    by blast
  from s have both: "out' = out1 \<and> ?fails s fs1"
    by (simp only: untar_loop_entry_fails)
  from both have o: "out' = out1" by (rule conjunct1)
  from both have f: "?fails s fs1" by (rule conjunct2)
  have "?split pre s rest \<and> ?front pre fs1 \<and> ?fails s fs1"
    using st pre o f by (intro conjI) simp_all
  then show "\<exists>pre s rest fs1. ?split pre s rest \<and> ?front pre fs1 \<and> ?fails s fs1"
    by (intro exI)
next
  assume "\<exists>pre s rest fs1. ?split pre s rest \<and> ?front pre fs1 \<and> ?fails s fs1"
  then obtain pre s rest fs1 where all: "?split pre s rest \<and> ?front pre fs1 \<and> ?fails s fs1"
    by (elim exE)
  from all have st: "steps = pre @ s # rest" by (rule conjunct1)
  from all have pre: "untar_loop env dest pre fs out = (None, fs1, out')"
    by (rule conjunct1 [OF conjunct2])
  from all have f: "?fails s fs1"
    by (rule conjunct2 [OF conjunct2])
  have s: "untar_loop env dest [s] fs1 out' = (Some e, fs', out')"
    using f by (simp only: untar_loop_entry_fails simp_thms)
  have "untar_loop env dest (pre @ (s # rest)) fs out = untar_loop env dest (s # rest) fs1 out'"
    using pre by (simp only: untar_loop_append [of env dest pre] prod.case option.case)
  also have "\<dots> = (Some e, fs', out')"
    using s by (simp only: untar_loop_Cons [of env dest s rest] prod.case option.case)
  finally show ?L
    using st by simp
qed

lemmas run_mem =
  mem_env_def mem_MkdirAll_def mem_Create_def mem_Copy_def strip_slash_def hello_fs_def
  TypeDir_def TypeReg_def

text \<open>
  C7. In one pass over the entries: when a front of the entries has been processed without
  error and the next entry fails (\<^verbatim>\<open>Next\<close> returns an error, or \<^verbatim>\<open>os.MkdirAll\<close>,
  \<^verbatim>\<open>os.Create\<close> or \<^verbatim>\<open>io.Copy\<close> does), the pass returns that error with the file
  system as the failing call left it, and it returns an error in no other case. The
  entries after the failing one are not processed: whatever follows it, the error, the
  file system and the output are the same. An entry that is neither a directory nor a
  regular file is reported on the output, changes nothing else, and the pass goes on with
  the next entry.
\<close>

theorem untar_loop_returns_first_error:
  "(untar_loop env dest steps fs out = (Some e, fs', out') \<longleftrightarrow>
      (\<exists>pre s rest fs1.
          steps = pre @ s # rest \<and>
          untar_loop env dest pre fs out = (None, fs1, out') \<and>
          (s = NextError e \<and> fs' = fs1 \<or>
           (\<exists>h c r. s = NextHeader h c r \<and> Typeflag h = TypeDir \<and>
              os_MkdirAll env fs1 (dest @ ''/'' @ Name h) = (fs', Some e)) \<or>
           (\<exists>h c r. s = NextHeader h c r \<and> Typeflag h \<noteq> TypeDir \<and> Typeflag h = TypeReg \<and>
              os_Create env fs1 (dest @ ''/'' @ Name h) = (fs', Some e)) \<or>
           (\<exists>h c r fs2. s = NextHeader h c r \<and> Typeflag h \<noteq> TypeDir \<and> Typeflag h = TypeReg \<and>
              os_Create env fs1 (dest @ ''/'' @ Name h) = (fs2, None) \<and>
              io_Copy env fs2 (dest @ ''/'' @ Name h) c r = (fs', Some e))))) \<and>
   (untar_loop env dest (front @ [t]) fs out = (Some e, fs', out') \<longrightarrow>
      untar_loop env dest (front @ t # others) fs out = (Some e, fs', out')) \<and>
   (Typeflag k \<noteq> TypeDir \<and> Typeflag k \<noteq> TypeReg \<longrightarrow>
      untar_loop env dest (NextHeader k content rerr # steps) fs out =
        untar_loop env dest steps fs (out @ [UnableToUntar (Typeflag k) (Name k)]))"
proof (intro conjI impI)
  show "untar_loop env dest steps fs out = (Some e, fs', out') \<longleftrightarrow>
      (\<exists>pre s rest fs1.
          steps = pre @ s # rest \<and>
          untar_loop env dest pre fs out = (None, fs1, out') \<and>
          (s = NextError e \<and> fs' = fs1 \<or>
           (\<exists>h c r. s = NextHeader h c r \<and> Typeflag h = TypeDir \<and>
              os_MkdirAll env fs1 (dest @ ''/'' @ Name h) = (fs', Some e)) \<or>
           (\<exists>h c r. s = NextHeader h c r \<and> Typeflag h \<noteq> TypeDir \<and> Typeflag h = TypeReg \<and>
              os_Create env fs1 (dest @ ''/'' @ Name h) = (fs', Some e)) \<or>
           (\<exists>h c r fs2. s = NextHeader h c r \<and> Typeflag h \<noteq> TypeDir \<and> Typeflag h = TypeReg \<and>
              os_Create env fs1 (dest @ ''/'' @ Name h) = (fs2, None) \<and>
              io_Copy env fs2 (dest @ ''/'' @ Name h) c r = (fs', Some e))))"
    by (rule untar_loop_error_iff)
next
  assume t: "untar_loop env dest (front @ [t]) fs out = (Some e, fs', out')"
  have "untar_loop env dest ((front @ [t]) @ others) fs out = (Some e, fs', out')"
    using t by (simp only: untar_loop_append [of env dest "front @ [t]"] prod.case option.case)
  then show "untar_loop env dest (front @ t # others) fs out = (Some e, fs', out')"
    by simp
next
  assume "Typeflag k \<noteq> TypeDir \<and> Typeflag k \<noteq> TypeReg"
  then show "untar_loop env dest (NextHeader k content rerr # steps) fs out =
        untar_loop env dest steps fs (out @ [UnableToUntar (Typeflag k) (Name k)])"
    by simp
qed

theorem untar_loop_returns_first_error_witness:
  "untar_loop (mem_env hello_gzip) ''D'' broken_archive hello_fs [] =
     (Some (Error ''unexpected EOF''), hello_fs(''D/a'' \<mapsto> Dir),
      [UnableToUntar CHR ''2'' ''l'']) \<and>
   os_MkdirAll (mem_env hello_gzip) (hello_fs(''D/a'' \<mapsto> File ''x'')) ''D/a/'' =
     (hello_fs(''D/a'' \<mapsto> File ''x''), Some (Error ''not a directory'')) \<and>
   untar_loop (mem_env hello_gzip) ''D'' mkdir_blocked hello_fs [] =
     (Some (Error ''not a directory''), hello_fs(''D/a'' \<mapsto> File ''x''),
      [UnableToUntar CHR ''2'' ''l'']) \<and>
   os_Create (mem_env hello_gzip) (hello_fs(''D/a'' \<mapsto> Dir)) ''D/a'' =
     (hello_fs(''D/a'' \<mapsto> Dir), Some (Error ''is a directory'')) \<and>
   untar_loop (mem_env hello_gzip) ''D'' create_blocked hello_fs [] =
     (Some (Error ''is a directory''), hello_fs(''D/a'' \<mapsto> Dir), []) \<and>
   io_Copy (mem_env hello_gzip) (hello_fs(''D/b'' \<mapsto> File [])) ''D/b'' ''he''
       (Some (Error ''unexpected EOF'')) =
     (hello_fs(''D/b'' \<mapsto> File ''he''), Some (Error ''unexpected EOF'')) \<and>
   untar_loop (mem_env hello_gzip) ''D'' copy_broken hello_fs [] =
     (Some (Error ''unexpected EOF''), hello_fs(''D/b'' \<mapsto> File ''he''), []) \<and>
   (\<forall>others. untar_loop (mem_env hello_gzip) ''D'' (take 3 mkdir_blocked @ others) hello_fs [] =
     (Some (Error ''not a directory''), hello_fs(''D/a'' \<mapsto> File ''x''),
      [UnableToUntar CHR ''2'' ''l''])) \<and>
   CHR ''2'' \<noteq> TypeDir \<and> CHR ''2'' \<noteq> TypeReg \<and>
   untar_loop (mem_env hello_gzip) ''D'' mkdir_blocked hello_fs [] =
     untar_loop (mem_env hello_gzip) ''D'' (tl mkdir_blocked) hello_fs
       [UnableToUntar CHR ''2'' ''l'']"
proof -
  note first = untar_loop_returns_first_error
    [where env = "mem_env hello_gzip" and dest = "''D''" and fs = hello_fs and out = "[]",
      THEN conjunct1]
  have next_fails: "untar_loop (mem_env hello_gzip) ''D'' broken_archive hello_fs [] =
     (Some (Error ''unexpected EOF''), hello_fs(''D/a'' \<mapsto> Dir),
      [UnableToUntar CHR ''2'' ''l''])"
    apply (subst first)
    apply (rule exI [of _ "take 2 broken_archive"])
    apply (rule exI [of _ "NextError (Error ''unexpected EOF'')"])
    apply (rule exI [of _ "drop 3 broken_archive"])
    apply (rule exI [of _ "hello_fs(''D/a'' \<mapsto> Dir)"])
    apply (simp add: broken_archive_def run_mem)
    done
  have mk: "os_MkdirAll (mem_env hello_gzip) (hello_fs(''D/a'' \<mapsto> File ''x'')) ''D/a/'' =
     (hello_fs(''D/a'' \<mapsto> File ''x''), Some (Error ''not a directory''))"
    by (simp add: run_mem)
  have mkdir_fails: "untar_loop (mem_env hello_gzip) ''D'' mkdir_blocked hello_fs [] =
     (Some (Error ''not a directory''), hello_fs(''D/a'' \<mapsto> File ''x''),
      [UnableToUntar CHR ''2'' ''l''])"
    apply (subst first)
    apply (rule exI [of _ "take 2 mkdir_blocked"])
    apply (rule exI [of _ "NextHeader \<lparr>Typeflag = TypeDir, Name = ''a/''\<rparr> [] None"])
    apply (rule exI [of _ "drop 3 mkdir_blocked"])
    apply (rule exI [of _ "hello_fs(''D/a'' \<mapsto> File ''x'')"])
    apply (simp add: mkdir_blocked_def run_mem)
    done
  have cr: "os_Create (mem_env hello_gzip) (hello_fs(''D/a'' \<mapsto> Dir)) ''D/a'' =
     (hello_fs(''D/a'' \<mapsto> Dir), Some (Error ''is a directory''))"
    by (simp add: run_mem)
  have create_fails: "untar_loop (mem_env hello_gzip) ''D'' create_blocked hello_fs [] =
     (Some (Error ''is a directory''), hello_fs(''D/a'' \<mapsto> Dir), [])"
    apply (subst first)
    apply (rule exI [of _ "take 1 create_blocked"])
    apply (rule exI [of _ "NextHeader \<lparr>Typeflag = TypeReg, Name = ''a''\<rparr> ''x'' None"])
    apply (rule exI [of _ "drop 2 create_blocked"])
    apply (rule exI [of _ "hello_fs(''D/a'' \<mapsto> Dir)"])
    apply (simp add: create_blocked_def run_mem)
    done
  have cp: "io_Copy (mem_env hello_gzip) (hello_fs(''D/b'' \<mapsto> File [])) ''D/b'' ''he''
       (Some (Error ''unexpected EOF'')) =
     (hello_fs(''D/b'' \<mapsto> File ''he''), Some (Error ''unexpected EOF''))"
    by (simp add: run_mem)
  have copy_fails: "untar_loop (mem_env hello_gzip) ''D'' copy_broken hello_fs [] =
     (Some (Error ''unexpected EOF''), hello_fs(''D/b'' \<mapsto> File ''he''), [])"
    apply (subst first)
    apply (rule exI [of _ "[]"])
    apply (rule exI [of _ "NextHeader \<lparr>Typeflag = TypeReg, Name = ''b''\<rparr> ''he''
        (Some (Error ''unexpected EOF''))"])
    apply (rule exI [of _ "drop 1 copy_broken"])
    apply (rule exI [of _ hello_fs])
    apply (simp add: copy_broken_def run_mem)
    done
  have front: "untar_loop (mem_env hello_gzip) ''D'' (take 2 mkdir_blocked @
        [NextHeader \<lparr>Typeflag = TypeDir, Name = ''a/''\<rparr> [] None]) hello_fs [] =
     (Some (Error ''not a directory''), hello_fs(''D/a'' \<mapsto> File ''x''),
      [UnableToUntar CHR ''2'' ''l''])"
    by (simp add: mkdir_blocked_def run_mem)
  have rest_unread: "untar_loop (mem_env hello_gzip) ''D'' (take 3 mkdir_blocked @ others)
       hello_fs [] =
     (Some (Error ''not a directory''), hello_fs(''D/a'' \<mapsto> File ''x''),
      [UnableToUntar CHR ''2'' ''l''])" for others
    using front
      untar_loop_returns_first_error
        [where env = "mem_env hello_gzip" and dest = "''D''" and fs = hello_fs and out = "[]"
           and front = "take 2 mkdir_blocked"
           and t = "NextHeader \<lparr>Typeflag = TypeDir, Name = ''a/''\<rparr> [] None"
           and others = others and e = "Error ''not a directory''"
           and fs' = "hello_fs(''D/a'' \<mapsto> File ''x'')"
           and out' = "[UnableToUntar CHR ''2'' ''l'']",
         THEN conjunct2, THEN conjunct1]
    by (simp add: mkdir_blocked_def)
  have kind: "CHR ''2'' \<noteq> TypeDir \<and> CHR ''2'' \<noteq> TypeReg"
    by (simp add: TypeDir_def TypeReg_def)
  have skipped: "untar_loop (mem_env hello_gzip) ''D'' mkdir_blocked hello_fs [] =
     untar_loop (mem_env hello_gzip) ''D'' (tl mkdir_blocked) hello_fs
       [UnableToUntar CHR ''2'' ''l'']"
    using kind
      untar_loop_returns_first_error
        [where env = "mem_env hello_gzip" and dest = "''D''" and steps = "tl mkdir_blocked"
           and fs = hello_fs and out = "[]" and k = "\<lparr>Typeflag = CHR ''2'', Name = ''l''\<rparr>"
           and content = "[]" and rerr = None,
         THEN conjunct2, THEN conjunct2]
    by (simp add: mkdir_blocked_def)
  show ?thesis
    using next_fails mk mkdir_fails cr create_fails cp copy_fails rest_unread kind skipped
    by (intro conjI allI) (rule next_fails mk mkdir_fails cr create_fails cp copy_fails
        rest_unread conjunct1 [OF kind] conjunct2 [OF kind] skipped)+
qed

section \<open>Properties of the download\<close>

subsection \<open>Running a task on a concrete environment\<close>

text \<open>
  On a state written out as a record, one turn of the loop gives the record below: the
  form in which the examples are evaluated.
\<close>

lemma on_chunk_record:
  "on_chunk rnd r \<lparr>bar = b, lastTime = lt, lastBytes = lb, written = w, ui = u, stdout = so\<rparr> =
     (if Second \<le> time_Sub (t_now r) lt
      then \<lparr>bar = b\<lparr>pb_current := wrap64 (pb_current b + int (rd_n r))\<rparr>,
            lastTime = t_now r,
            lastBytes = wrap64 (pb_current b + int (rd_n r)),
            written = w + min (wr_n r) (rd_n r),
            ui = u @
              [UpdateSpeedLabel
                 \<lparr>s_at = t_now r, s_current = wrap64 (pb_current b + int (rd_n r)),
                  s_bytes = wrap64 (wrap64 (pb_current b + int (rd_n r)) - lb),
                  s_elapsed = time_Sub (t_now r) lt\<rparr>,
               SetValue (updateProgressBar rnd (wrap64 (pb_current b + int (rd_n r))) (pb_total b))],
            stdout = so\<rparr>
      else \<lparr>bar = b\<lparr>pb_current := wrap64 (pb_current b + int (rd_n r))\<rparr>,
            lastTime = lt, lastBytes = lb,
            written = w + min (wr_n r) (rd_n r),
            ui = u @
              [SetValue (updateProgressBar rnd (wrap64 (pb_current b + int (rd_n r))) (pb_total b))],
            stdout = so\<rparr>)"
  by (simp add: on_chunk_def Let_def)

lemmas run_task =
  downloadFile_def task_def step_def window_def initProgressBars_def calculateMaxNameWidth_def
  files_def bar_at_def NewProgressBar_def on_chunk_record Let_def wrap64_def time_Sub_def
  updateProgressBar_def go_int_def Second_def maxDuration_def minDuration_def exact_def

subsection \<open>Arithmetic of the counters and the clock\<close>

lemma wrap64_id:
  assumes "- (2 ^ 63) \<le> x" and "x < 2 ^ 63"
  shows "wrap64 x = x"
  using assms by (simp add: wrap64_def)

lemma time_Sub_Second:
  assumes "Second \<le> time_Sub t u"
  shows "Second \<le> t - u"
  using assms by (simp add: time_Sub_def Second_def maxDuration_def minDuration_def split: if_splits)

subsection \<open>What the loop shows\<close>

text \<open>
  The values handed to \<^verbatim>\<open>SetValue\<close> during the loop are the percentages of the
  successive values of \<^verbatim>\<open>current\<close>, one for each turn that read at least one byte.
\<close>

lemma reported_append: "reported (xs @ ys) = reported xs @ reported ys"
  by (induction xs rule: reported.induct) simp_all

lemma samples_append: "samples (xs @ ys) = samples xs @ samples ys"
  by (induction xs rule: samples.induct) simp_all

lemma on_chunk_total: "pb_total (bar (on_chunk rnd r s)) = pb_total (bar s)"
  by (simp add: on_chunk_def Let_def)

lemma on_chunk_current:
  "pb_current (bar (on_chunk rnd r s)) = wrap64 (pb_current (bar s) + int (rd_n r))"
  by (simp add: on_chunk_def Let_def)

lemma on_chunk_written:
  "written (on_chunk rnd r s) = written s + min (wr_n r) (rd_n r)"
  by (simp add: on_chunk_def Let_def)

lemma on_chunk_reported:
  "reported (ui (on_chunk rnd r s)) =
     reported (ui s) @
       [updateProgressBar rnd (wrap64 (pb_current (bar s) + int (rd_n r))) (pb_total (bar s))]"
  by (simp add: on_chunk_def Let_def reported_append)

lemma read_loop_reported:
  "reported (ui (snd (read_loop rnd file rs s))) =
     reported (ui s) @
       map (\<lambda>c. updateProgressBar rnd c (pb_total (bar s)))
         (totals (pb_current (bar s)) (consumed rs))"
proof (induction rs arbitrary: s)
  case Nil
  show ?case by simp
next
  case (Cons r rs)
  show ?case
  proof (cases "rd_err r")
    case NoErr
    then show ?thesis
      using Cons.IH [of "on_chunk rnd r s"] Cons.IH [of s]
      by (simp add: on_chunk_reported on_chunk_total on_chunk_current)
  next
    case EOF
    then show ?thesis
      by (simp add: on_chunk_reported)
  next
    case (ReadErr e)
    then show ?thesis
      by (simp add: on_chunk_reported Let_def)
  qed
qed

lemma length_totals: "length (totals c rs) = length (filter (\<lambda>r. 0 < rd_n r) rs)"
  by (induction rs arbitrary: c) simp_all

lemma read_bytes_nonneg: "0 \<le> (\<Sum>r\<leftarrow>rs. int (rd_n r))"
  by (rule sum_list_nonneg) auto

lemma totals_bounds:
  assumes "0 \<le> c" and "c + (\<Sum>r\<leftarrow>rs. int (rd_n r)) < 2 ^ 63" and "x \<in> set (totals c rs)"
  shows "c \<le> x \<and> x \<le> c + (\<Sum>r\<leftarrow>rs. int (rd_n r))"
  using assms
proof (induction rs arbitrary: c)
  case Nil
  then show ?case by simp
next
  case (Cons r rs)
  show ?case
  proof (cases "0 < rd_n r")
    case False
    then show ?thesis
      using Cons.IH [of c] Cons.prems by simp
  next
    case True
    let ?c = "c + int (rd_n r)"
    have w: "wrap64 ?c = ?c"
      using Cons.prems(1,2) read_bytes_nonneg [of rs] by (intro wrap64_id) simp_all
    have pos: "0 \<le> ?c"
      using Cons.prems(1) by simp
    have room: "?c + (\<Sum>r\<leftarrow>rs. int (rd_n r)) < 2 ^ 63"
      using Cons.prems(2) by simp
    from Cons.prems(3) True w have "x = ?c \<or> x \<in> set (totals ?c rs)"
      by simp
    then show ?thesis
    proof
      assume "x = ?c"
      then show ?thesis using read_bytes_nonneg [of rs] by simp
    next
      assume "x \<in> set (totals ?c rs)"
      from Cons.IH [OF pos room this] show ?thesis by simp
    qed
  qed
qed

lemma totals_sorted:
  assumes "0 \<le> c" and "c + (\<Sum>r\<leftarrow>rs. int (rd_n r)) < 2 ^ 63"
  shows "sorted (totals c rs)"
  using assms
proof (induction rs arbitrary: c)
  case Nil
  then show ?case by simp
next
  case (Cons r rs)
  show ?case
  proof (cases "0 < rd_n r")
    case False
    then show ?thesis
      using Cons.IH [of c] Cons.prems by simp
  next
    case True
    let ?c = "c + int (rd_n r)"
    have w: "wrap64 ?c = ?c"
      using Cons.prems read_bytes_nonneg [of rs] by (intro wrap64_id) simp_all
    have pos: "0 \<le> ?c"
      using Cons.prems(1) by simp
    have room: "?c + (\<Sum>r\<leftarrow>rs. int (rd_n r)) < 2 ^ 63"
      using Cons.prems(2) by simp
    have "\<forall>x\<in>set (totals ?c rs). ?c \<le> x"
      using totals_bounds [OF pos room] by blast
    then show ?thesis
      using True w Cons.IH [OF pos room] by simp
  qed
qed

lemma downloadFile_early_ui:
  assumes "create_err env \<noteq> None \<or> get_err env \<noteq> None \<or> bar_at p order = None"
  shows "ui (final (downloadFile rnd env p directory file order)) = []"
  using assms by (auto simp: downloadFile_def Let_def split: option.splits)

lemma downloadFile_reported:
  assumes "create_err env = None" and "get_err env = None" and "bar_at p order = Some pb"
  shows "reported (ui (final (downloadFile rnd env p directory file order))) =
           map (\<lambda>c. updateProgressBar rnd c (ContentLength env))
             (totals (pb_current pb) (consumed (body env)))"
proof -
  let ?s1 = "\<lparr>bar = pb\<lparr>pb_total := ContentLength env\<rparr>, lastTime = t_start env,
              lastBytes = 0, written = 0, ui = [], stdout = []\<rparr>"
  have fin: "final (downloadFile rnd env p directory file order) =
               snd (read_loop rnd file (body env) ?s1)"
    using assms
    by (cases "read_loop rnd file (body env) ?s1")
      (simp add: downloadFile_def Let_def split: loop_exit.splits)
  show ?thesis
    unfolding fin using read_loop_reported [of rnd "file" "body env" ?s1] by simp
qed

subsection \<open>The percentage for a declared length\<close>

text \<open>
  For a positive \<^verbatim>\<open>total\<close> and a rounding that is monotone and exact at 0, 1 and 100
  (as rounding to \<^verbatim>\<open>float32\<close> is), the percentage of a counter between 0 and
  \<^verbatim>\<open>total\<close> lies between 0 and 100 and grows with the counter.
\<close>

lemma updateProgressBar_in_range:
  assumes m: "mono rnd" and r0: "rnd 0 = 0" and r1: "rnd 1 = 1" and r100: "rnd 100 = 100"
    and t: "0 < t" and c: "0 \<le> c" "c \<le> t"
  shows "updateProgressBar rnd c t =
           Some \<lfloor>rnd (rnd (rnd (real_of_int c) / rnd (real_of_int t)) * 100)\<rfloor> \<and>
         0 \<le> rnd (rnd (rnd (real_of_int c) / rnd (real_of_int t)) * 100) \<and>
         rnd (rnd (rnd (real_of_int c) / rnd (real_of_int t)) * 100) \<le> 100"
proof -
  have t1: "1 \<le> rnd (real_of_int t)"
    using monoD [OF m, of 1 "real_of_int t"] t r1 by simp
  have c0: "0 \<le> rnd (real_of_int c)"
    using monoD [OF m, of 0 "real_of_int c"] c r0 by simp
  have ct: "rnd (real_of_int c) \<le> rnd (real_of_int t)"
    using monoD [OF m, of "real_of_int c" "real_of_int t"] c by simp
  let ?q = "rnd (real_of_int c) / rnd (real_of_int t)"
  have q0: "0 \<le> ?q"
    using c0 t1 by simp
  have q1: "?q \<le> 1"
    using ct t1 by (simp add: divide_le_eq)
  have rq0: "0 \<le> rnd ?q"
    using monoD [OF m q0] r0 by simp
  have rq1: "rnd ?q \<le> 1"
    using monoD [OF m q1] r1 by simp
  have p0: "0 \<le> rnd ?q * 100"
    using rq0 by simp
  have p1: "rnd ?q * 100 \<le> 100"
    using rq1 by simp
  have f0: "0 \<le> rnd (rnd ?q * 100)"
    using monoD [OF m p0] r0 by simp
  have f1: "rnd (rnd ?q * 100) \<le> 100"
    using monoD [OF m p1] r100 by simp
  have nz: "rnd (real_of_int t) \<noteq> 0"
    using t1 by simp
  have "go_int (rnd (rnd ?q * 100)) = Some \<lfloor>rnd (rnd ?q * 100)\<rfloor>"
    using f0 f1 by (simp add: go_int_def)
  then show ?thesis
    using nz f0 f1 by (simp add: updateProgressBar_def)
qed

lemma percent_mono:
  assumes m: "mono rnd" and r1: "rnd 1 = 1" and t: "0 < t" and c: "c1 \<le> c2"
  shows "rnd (rnd (rnd (real_of_int c1) / rnd (real_of_int t)) * 100)
           \<le> rnd (rnd (rnd (real_of_int c2) / rnd (real_of_int t)) * 100)"
proof -
  have t1: "1 \<le> rnd (real_of_int t)"
    using monoD [OF m, of 1 "real_of_int t"] t r1 by simp
  have "rnd (real_of_int c1) \<le> rnd (real_of_int c2)"
    using monoD [OF m, of "real_of_int c1" "real_of_int c2"] c by simp
  then have "rnd (real_of_int c1) / rnd (real_of_int t) \<le> rnd (real_of_int c2) / rnd (real_of_int t)"
    using t1 by (simp add: divide_right_mono)
  then have "rnd (rnd (real_of_int c1) / rnd (real_of_int t))
               \<le> rnd (rnd (real_of_int c2) / rnd (real_of_int t))"
    by (rule monoD [OF m])
  then have "rnd (rnd (real_of_int c1) / rnd (real_of_int t)) * 100
               \<le> rnd (rnd (real_of_int c2) / rnd (real_of_int t)) * 100"
    by simp
  then show ?thesis
    by (rule monoD [OF m])
qed

lemma percentages_sorted:
  assumes m: "mono rnd" and r0: "rnd 0 = 0" and r1: "rnd 1 = 1" and r100: "rnd 100 = 100"
    and t: "0 < t" and srt: "sorted cs" and rng: "\<And>c. c \<in> set cs \<Longrightarrow> 0 \<le> c \<and> c \<le> t"
  shows "\<exists>vs. map (\<lambda>c. updateProgressBar rnd c t) cs = map Some vs \<and> sorted vs \<and>
           (\<forall>v\<in>set vs. 0 \<le> v \<and> v \<le> 100)"
proof -
  let ?f = "\<lambda>c. rnd (rnd (rnd (real_of_int c) / rnd (real_of_int t)) * 100)"
  let ?vs = "map (\<lambda>c. \<lfloor>?f c\<rfloor>) cs"
  have eq: "map (\<lambda>c. updateProgressBar rnd c t) cs = map Some ?vs"
    using updateProgressBar_in_range [OF m r0 r1 r100 t] rng by simp
  have "sorted ?vs"
    using srt
  proof (induction cs)
    case Nil
    show ?case by simp
  next
    case (Cons c cs)
    have "\<lfloor>?f c\<rfloor> \<le> \<lfloor>?f d\<rfloor>" if "d \<in> set cs" for d
    proof -
      have "c \<le> d" using Cons.prems that by simp
      from percent_mono [OF m r1 t this] show ?thesis by (rule floor_mono)
    qed
    then show ?case
      using Cons by simp
  qed
  moreover have "\<forall>v\<in>set ?vs. 0 \<le> v \<and> v \<le> 100"
  proof
    fix v assume "v \<in> set ?vs"
    then obtain c where cin: "c \<in> set cs" and v: "v = \<lfloor>?f c\<rfloor>" by auto
    from rng [OF cin] have "0 \<le> ?f c \<and> ?f c \<le> 100"
      using updateProgressBar_in_range [OF m r0 r1 r100 t, of c] by simp
    then show "0 \<le> v \<and> v \<le> 100"
      unfolding v by (simp add: floor_le_iff le_floor_iff)
  qed
  ultimately show ?thesis
    using eq by blast
qed

subsection \<open>The speed samples\<close>

text \<open>
  The loop keeps \<open>samples_ok\<close> of what it has shown, with \<^verbatim>\<open>lastTime\<close> and
  \<^verbatim>\<open>lastBytes\<close> the time and the counter of the last sample shown.
\<close>

lemma samples_ok_snoc:
  "samples_ok t b (xs @ [x]) \<longleftrightarrow>
     samples_ok t b xs \<and>
     Second \<le> s_at x - last (t # map s_at xs) \<and>
     s_bytes x = wrap64 (s_current x - last (b # map s_current xs)) \<and>
     s_elapsed x = time_Sub (s_at x) (last (t # map s_at xs))"
  by (induction xs arbitrary: t b) auto

lemma on_chunk_keeps_samples:
  assumes "samples_ok t0 b0 (samples (ui s))"
    and "last (t0 # map s_at (samples (ui s))) = lastTime s"
    and "last (b0 # map s_current (samples (ui s))) = lastBytes s"
  shows "samples_ok t0 b0 (samples (ui (on_chunk rnd r s))) \<and>
         last (t0 # map s_at (samples (ui (on_chunk rnd r s)))) = lastTime (on_chunk rnd r s) \<and>
         last (b0 # map s_current (samples (ui (on_chunk rnd r s)))) = lastBytes (on_chunk rnd r s)"
proof (cases "Second \<le> time_Sub (t_now r) (lastTime s)")
  case True
  from time_Sub_Second [OF True] have "Second \<le> t_now r - lastTime s" .
  then show ?thesis
    using True assms
    by (simp add: on_chunk_def Let_def samples_append samples_ok_snoc)
next
  case False
  then show ?thesis
    using assms by (simp add: on_chunk_def Let_def samples_append)
qed

lemma read_loop_keeps_samples:
  assumes "samples_ok t0 b0 (samples (ui s))"
    and "last (t0 # map s_at (samples (ui s))) = lastTime s"
    and "last (b0 # map s_current (samples (ui s))) = lastBytes s"
  shows "samples_ok t0 b0 (samples (ui (snd (read_loop rnd file rs s))))"
  using assms
proof (induction rs arbitrary: s)
  case Nil
  then show ?case by simp
next
  case (Cons r rs)
  let ?s1 = "if 0 < rd_n r then on_chunk rnd r s else s"
  have inv: "samples_ok t0 b0 (samples (ui ?s1)) \<and>
      last (t0 # map s_at (samples (ui ?s1))) = lastTime ?s1 \<and>
      last (b0 # map s_current (samples (ui ?s1))) = lastBytes ?s1"
    using on_chunk_keeps_samples [OF Cons.prems, of rnd r] Cons.prems
    by (simp del: last.simps)
  show ?case
  proof (cases "rd_err r")
    case NoErr
    have "samples_ok t0 b0 (samples (ui (snd (read_loop rnd file rs ?s1))))"
      using inv by (intro Cons.IH) simp_all
    then show ?thesis
      using NoErr by (simp add: Let_def)
  next
    case EOF
    then show ?thesis using inv by (simp add: Let_def)
  next
    case (ReadErr e)
    then show ?thesis using inv by (simp add: Let_def)
  qed
qed

lemma samples_ok_spacing:
  assumes "samples_ok t b xs"
  shows "list_all (\<lambda>x. Second \<le> s_at x - t) xs \<and>
         sorted_wrt (\<lambda>x y. Second \<le> s_at y - s_at x) xs"
  using assms
proof (induction xs arbitrary: t b)
  case Nil
  show ?case by simp
next
  case (Cons x xs)
  from Cons.prems have first: "Second \<le> s_at x - t" and rest: "samples_ok (s_at x) (s_current x) xs"
    by simp_all
  from Cons.IH [OF rest] have after: "list_all (\<lambda>y. Second \<le> s_at y - s_at x) xs"
    and srt: "sorted_wrt (\<lambda>x y. Second \<le> s_at y - s_at x) xs"
    by simp_all
  have "list_all (\<lambda>y. Second \<le> s_at y - t) xs"
    using after first by (auto simp: list_all_iff Second_def)
  then show ?case
    using first after srt by (simp add: list_all_iff)
qed

lemma downloadFile_samples_ok:
  "samples_ok (t_start env) 0 (samples (ui (final (downloadFile rnd env p directory file order))))"
proof (cases "create_err env = None \<and> get_err env = None \<and> bar_at p order \<noteq> None")
  case False
  then have "ui (final (downloadFile rnd env p directory file order)) = []"
    by (auto simp: downloadFile_def Let_def split: option.splits)
  then show ?thesis
    by simp
next
  case True
  then obtain pb where pb: "bar_at p order = Some pb" by auto
  let ?s1 = "\<lparr>bar = pb\<lparr>pb_total := ContentLength env\<rparr>, lastTime = t_start env,
              lastBytes = 0, written = 0, ui = [], stdout = []\<rparr>"
  have fin: "final (downloadFile rnd env p directory file order) =
               snd (read_loop rnd file (body env) ?s1)"
    using True pb
    by (cases "read_loop rnd file (body env) ?s1")
      (simp add: downloadFile_def Let_def split: loop_exit.splits)
  show ?thesis
    unfolding fin by (rule read_loop_keeps_samples) simp_all
qed

subsection \<open>The channel and the counters\<close>

text \<open>A call sends on \<^verbatim>\<open>done\<close> exactly when it reached the end of the body.\<close>

lemma downloadFile_sends_iff_completed:
  "sent (downloadFile rnd env p directory file order) =
     (if exit_of (downloadFile rnd env p directory file order) = Completed then [True] else [])"
  by (simp add: downloadFile_def Let_def split: option.splits prod.splits loop_exit.splits)

text \<open>
  The last value of \<^verbatim>\<open>current\<close> is the last of its successive values, and the file
  holds what the writes stored.
\<close>

lemma read_loop_current:
  "pb_current (bar (snd (read_loop rnd file rs s))) =
     last (pb_current (bar s) # totals (pb_current (bar s)) (consumed rs))"
proof (induction rs arbitrary: s)
  case Nil
  show ?case by simp
next
  case (Cons r rs)
  show ?case
  proof (cases "rd_err r")
    case NoErr
    then show ?thesis
      using Cons.IH [of "on_chunk rnd r s"] Cons.IH [of s]
      by (simp add: on_chunk_current)
  next
    case EOF
    then show ?thesis by (simp add: on_chunk_current)
  next
    case (ReadErr e)
    then show ?thesis by (simp add: on_chunk_current Let_def)
  qed
qed

lemma read_loop_written:
  "written (snd (read_loop rnd file rs s)) =
     written s + (\<Sum>r\<leftarrow>filter (\<lambda>r. 0 < rd_n r) (consumed rs). min (wr_n r) (rd_n r))"
proof (induction rs arbitrary: s)
  case Nil
  show ?case by simp
next
  case (Cons r rs)
  show ?case
  proof (cases "rd_err r")
    case NoErr
    then show ?thesis
      using Cons.IH [of "on_chunk rnd r s"] Cons.IH [of s]
      by (simp add: on_chunk_written)
  next
    case EOF
    then show ?thesis by (simp add: on_chunk_written)
  next
    case (ReadErr e)
    then show ?thesis by (simp add: on_chunk_written Let_def)
  qed
qed

lemma last_totals:
  assumes "0 \<le> c" and "c + (\<Sum>r\<leftarrow>rs. int (rd_n r)) < 2 ^ 63"
  shows "last (c # totals c rs) = c + (\<Sum>r\<leftarrow>rs. int (rd_n r))"
  using assms
proof (induction rs arbitrary: c)
  case Nil
  show ?case by simp
next
  case (Cons r rs)
  show ?case
  proof (cases "0 < rd_n r")
    case False
    then show ?thesis
      using Cons.IH [of c] Cons.prems by simp
  next
    case True
    let ?c = "c + int (rd_n r)"
    have w: "wrap64 ?c = ?c"
      using Cons.prems read_bytes_nonneg [of rs] by (intro wrap64_id) simp_all
    have "last (?c # totals ?c rs) = ?c + (\<Sum>r\<leftarrow>rs. int (rd_n r))"
      using Cons.prems by (intro Cons.IH) simp_all
    then show ?thesis
      using True w by simp
  qed
qed

lemma int_sum_list: "int (\<Sum>r\<leftarrow>rs. f r) = (\<Sum>r\<leftarrow>rs. int (f r))"
  by (induction rs) simp_all

text \<open>Where the counter is right: no write stores less than its chunk.\<close>

lemma downloadFile_counter_when_writes_succeed:
  assumes "create_err env = None" and "get_err env = None"
    and "bar_at p order = Some pb" and "pb_current pb = 0"
    and "(\<Sum>r\<leftarrow>consumed (body env). int (rd_n r)) < 2 ^ 63"
    and "\<And>r. r \<in> set (consumed (body env)) \<Longrightarrow> rd_n r \<le> wr_n r"
  shows "pb_current (bar (final (downloadFile rnd env p directory file order))) =
           (\<Sum>r\<leftarrow>consumed (body env). int (rd_n r)) \<and>
         int (written (final (downloadFile rnd env p directory file order))) =
           (\<Sum>r\<leftarrow>consumed (body env). int (rd_n r))"
proof -
  let ?s1 = "\<lparr>bar = pb\<lparr>pb_total := ContentLength env\<rparr>, lastTime = t_start env,
              lastBytes = 0, written = 0, ui = [], stdout = []\<rparr>"
  let ?rs = "consumed (body env)"
  have fin: "final (downloadFile rnd env p directory file order) =
               snd (read_loop rnd file (body env) ?s1)"
    using assms(1-3)
    by (cases "read_loop rnd file (body env) ?s1")
      (simp add: downloadFile_def Let_def split: loop_exit.splits)
  have cur: "pb_current (bar (final (downloadFile rnd env p directory file order))) =
      (\<Sum>r\<leftarrow>?rs. int (rd_n r))"
    unfolding fin
    using read_loop_current [of rnd "file" "body env" ?s1] last_totals [of 0 ?rs] assms(4,5)
    by simp
  have "(\<Sum>r\<leftarrow>filter (\<lambda>r. 0 < rd_n r) rs. int (min (wr_n r) (rd_n r))) = (\<Sum>r\<leftarrow>rs. int (rd_n r))"
    if "\<And>r. r \<in> set rs \<Longrightarrow> rd_n r \<le> wr_n r" for rs :: "read_step list"
    using that
  proof (induction rs)
    case Nil
    show ?case by simp
  next
    case (Cons a rs)
    have "rd_n a \<le> wr_n a"
      using Cons.prems by simp
    then have "min (wr_n a) (rd_n a) = rd_n a"
      by simp
    then show ?case
      using Cons by simp
  qed
  from this [OF assms(6)]
  have "int (written (final (downloadFile rnd env p directory file order))) =
      (\<Sum>r\<leftarrow>?rs. int (rd_n r))"
    unfolding fin
    using read_loop_written [of rnd "file" "body env" ?s1]
    by (simp add: int_sum_list)
  with cur show ?thesis by simp
qed

subsection \<open>The claims about the download\<close>

text \<open>
  C2. The claim: every task sends exactly one value on \<^verbatim>\<open>done\<close>, whether it
  succeeds or fails, so \<^verbatim>\<open>run\<close> goes on once all tasks have ended.
  The code: a task whose file cannot be created, whose request fails or whose body breaks
  returns at line 203, 210 or 242 and sends nothing; only a task that reaches the end of
  its body sends. With the first of three tasks failing, \<^verbatim>\<open>run\<close> receives the two
  values of the other tasks and then waits at line 133 for a third that is never sent.
\<close>

theorem failed_task_sends_nothing:
  "sent (downloadFile exact no_file window ''D'' ''info.txt'' 1) = [] \<and>
   sent (downloadFile exact no_network window ''D'' ''info.txt'' 1) = [] \<and>
   sent (downloadFile exact broken_stream window ''D'' ''info.txt'' 1) = [] \<and>
   sent (downloadFile exact two_bytes window ''D'' ''info.txt'' 1) = [True] \<and>
   run exact (\<lambda>file. if file = ''info.txt'' then no_file else two_bytes)
     (mem_env hello_gzip) window ''D'' hello_fs = WaitingOnDone 2"
  by (simp add: run_task run_def no_file_def no_network_def broken_stream_def two_bytes_def)

text \<open>
  C4. The claim: the final \<^verbatim>\<open>current\<close> of a task equals the number of bytes written
  to its file, and a failed write ends the task.
  The code: the results of \<^verbatim>\<open>out.Write\<close> are dropped at line 225. For a body of
  five bytes of which the write stores none, the task still adds five to
  \<^verbatim>\<open>current\<close>, prints nothing, reaches the end of the body and sends on
  \<^verbatim>\<open>done\<close>: \<^verbatim>\<open>current\<close> is 5 and the file holds 0 bytes.
\<close>

theorem failed_write_is_counted:
  "exit_of (downloadFile exact lost_write window ''D'' ''info.txt'' 1) = Completed \<and>
   sent (downloadFile exact lost_write window ''D'' ''info.txt'' 1) = [True] \<and>
   stdout (final (downloadFile exact lost_write window ''D'' ''info.txt'' 1)) = [] \<and>
   pb_current (bar (final (downloadFile exact lost_write window ''D'' ''info.txt'' 1))) = 5 \<and>
   written (final (downloadFile exact lost_write window ''D'' ''info.txt'' 1)) = 0"
  by (simp add: run_task lost_write_def)

text \<open>
  C3, as stated, fails: for a response without a declared length
  (\<^verbatim>\<open>ContentLength\<close> is \<open>-1\<close>) and a body of one byte, \<^verbatim>\<open>updateProgressBar\<close>
  is called and hands \<open>-100\<close> to the progress bar.
\<close>

theorem unknown_length_percentage_reported:
  "ContentLength unknown_one = - 1 \<and>
   reported (ui (final (downloadFile exact unknown_one window ''D'' ''info.txt'' 1))) =
     [Some (- 100)]"
  by (simp add: run_task unknown_one_def)

text \<open>
  C3, amended. For every task that got its response, whatever the declared length is
  (a negative one, for an unknown length, included): after every turn of the loop that
  read at least one byte, the percentage of the new value of \<^verbatim>\<open>current\<close> against
  \<^verbatim>\<open>resp.ContentLength\<close> is computed and handed to the progress bar. There are as
  many values shown as turns that read at least one byte.
\<close>

theorem downloadFile_reports_every_chunk:
  assumes "create_err env = None" and "get_err env = None" and "bar_at p order = Some pb"
  shows "reported (ui (final (downloadFile rnd env p directory file order))) =
           map (\<lambda>c. updateProgressBar rnd c (ContentLength env))
             (totals (pb_current pb) (consumed (body env))) \<and>
         length (reported (ui (final (downloadFile rnd env p directory file order)))) =
           length (filter (\<lambda>r. 0 < rd_n r) (consumed (body env)))"
  using downloadFile_reported [OF assms, of rnd directory "file"]
  by (simp add: length_totals)

theorem downloadFile_reports_every_chunk_witness:
  "create_err unknown_three = None \<and> get_err unknown_three = None \<and>
   bar_at window 1 = Some (NewProgressBar 1 ''info.txt'' 20) \<and>
   ContentLength unknown_three = - 1 \<and>
   reported (ui (final (downloadFile exact unknown_three window ''D'' ''info.txt'' 1))) =
     [Some (- 300), Some (- 500)] \<and>
   length (filter (\<lambda>r. 0 < rd_n r) (consumed (body unknown_three))) = 2"
proof -
  have c: "create_err unknown_three = None" and g: "get_err unknown_three = None"
    by (simp_all add: unknown_three_def task_def)
  have b: "bar_at window 1 = Some (NewProgressBar 1 ''info.txt'' 20)"
    by (simp add: run_task)
  have "map (\<lambda>c. updateProgressBar exact c (ContentLength unknown_three))
          (totals (pb_current (NewProgressBar 1 ''info.txt'' 20)) (consumed (body unknown_three)))
        = [Some (- 300), Some (- 500)]"
    by (simp add: run_task unknown_three_def)
  moreover have "length (filter (\<lambda>r. 0 < rd_n r) (consumed (body unknown_three))) = 2"
    by (simp add: unknown_three_def task_def step_def)
  moreover have "ContentLength unknown_three = - 1"
    by (simp add: unknown_three_def task_def)
  ultimately show ?thesis
    using c g b downloadFile_reports_every_chunk [OF c g b, of exact "''D''" "''info.txt''"]
    by simp
qed

text \<open>
  C5, as stated, fails: for a response without a declared length and a body of two
  bytes read one at a time, the values shown are \<open>-100\<close> and then \<open>-200\<close>.
\<close>

theorem unknown_length_percentage_decreases:
  "reported (ui (final (downloadFile exact unknown_two window ''D'' ''info.txt'' 1))) =
     [Some (- 100), Some (- 200)] \<and>
   \<not> (\<exists>vs. reported (ui (final (downloadFile exact unknown_two window ''D'' ''info.txt'' 1))) =
          map Some vs \<and> sorted vs)"
proof -
  have r: "reported (ui (final (downloadFile exact unknown_two window ''D'' ''info.txt'' 1))) =
     [Some (- 100), Some (- 200)]"
    by (simp add: run_task unknown_two_def)
  have "\<not> (\<exists>vs :: int list. [Some (- 100), Some (- 200)] = map Some vs \<and> sorted vs)"
  proof
    assume "\<exists>vs :: int list. [Some (- 100), Some (- 200)] = map Some vs \<and> sorted vs"
    then obtain vs :: "int list" where e: "[Some (- 100), Some (- 200)] = map Some vs"
      and srt: "sorted vs"
      by auto
    from e have "vs = [- 100, - 200]"
      by (auto simp: Cons_eq_map_conv)
    with srt show False by simp
  qed
  then show ?thesis
    unfolding r by simp
qed

text \<open>
  C5, amended. For every task whose declared length is positive and whose body delivers
  no more bytes than declared, the values handed to the progress bar are defined, lie
  between 0 and 100 and never decrease over the task. The rounding to \<^verbatim>\<open>float32\<close>
  enters only as a monotone function that is exact at 0, 1 and 100.
\<close>

theorem downloadFile_percentage_monotone:
  assumes "mono rnd" and "rnd 0 = 0" and "rnd 1 = 1" and "rnd 100 = 100"
    and "bar_at p order = Some pb" and "pb_current pb = 0"
    and "0 < ContentLength env" and "ContentLength env < 2 ^ 63"
    and "(\<Sum>r\<leftarrow>consumed (body env). int (rd_n r)) \<le> ContentLength env"
  shows "\<exists>vs. reported (ui (final (downloadFile rnd env p directory file order))) = map Some vs \<and>
           sorted vs \<and> (\<forall>v\<in>set vs. 0 \<le> v \<and> v \<le> 100)"
proof (cases "create_err env = None \<and> get_err env = None")
  case False
  then have "ui (final (downloadFile rnd env p directory file order)) = []"
    by (intro downloadFile_early_ui) auto
  then have "reported (ui (final (downloadFile rnd env p directory file order))) = map Some [] \<and>
      sorted ([] :: int list) \<and> (\<forall>v\<in>set ([] :: int list). 0 \<le> v \<and> v \<le> 100)"
    by simp
  then show ?thesis by blast
next
  case True
  let ?cs = "totals 0 (consumed (body env))"
  have rep: "reported (ui (final (downloadFile rnd env p directory file order))) =
      map (\<lambda>c. updateProgressBar rnd c (ContentLength env)) ?cs"
    using downloadFile_reported [of env p order pb rnd directory "file"] True assms(5,6) by simp
  have room: "0 + (\<Sum>r\<leftarrow>consumed (body env). int (rd_n r)) < 2 ^ 63"
    using assms(8,9) by simp
  have srt: "sorted ?cs"
    using totals_sorted [OF _ room] by simp
  have rng: "0 \<le> c \<and> c \<le> ContentLength env" if "c \<in> set ?cs" for c
    using totals_bounds [OF _ room that] assms(9) by simp
  from percentages_sorted [OF assms(1-4) assms(7) srt rng]
  show ?thesis
    unfolding rep by blast
qed

theorem downloadFile_percentage_monotone_witness:
  "mono exact \<and> exact 0 = 0 \<and> exact 1 = 1 \<and> exact 100 = 100 \<and>
   bar_at window 1 = Some (NewProgressBar 1 ''info.txt'' 20) \<and>
   pb_current (NewProgressBar 1 ''info.txt'' 20) = 0 \<and>
   0 < ContentLength ten_bytes \<and> ContentLength ten_bytes < 2 ^ 63 \<and>
   (\<Sum>r\<leftarrow>consumed (body ten_bytes). int (rd_n r)) \<le> ContentLength ten_bytes \<and>
   reported (ui (final (downloadFile exact ten_bytes window ''D'' ''info.txt'' 1))) =
     [Some 50, Some 100] \<and>
   (\<exists>vs. reported (ui (final (downloadFile exact ten_bytes window ''D'' ''info.txt'' 1))) =
      map Some vs \<and> sorted vs \<and> (\<forall>v\<in>set vs. 0 \<le> v \<and> v \<le> 100))"
proof -
  have m: "mono exact"
    by (simp add: mono_def exact_def)
  have e: "exact 0 = 0" "exact 1 = 1" "exact 100 = 100"
    by (simp_all add: exact_def)
  have b: "bar_at window 1 = Some (NewProgressBar 1 ''info.txt'' 20)"
    by (simp add: run_task)
  have c: "pb_current (NewProgressBar 1 ''info.txt'' 20) = 0"
    by (simp add: NewProgressBar_def)
  have l: "0 < ContentLength ten_bytes" "ContentLength ten_bytes < 2 ^ 63"
    by (simp_all add: ten_bytes_def task_def)
  have s: "(\<Sum>r\<leftarrow>consumed (body ten_bytes). int (rd_n r)) \<le> ContentLength ten_bytes"
    by (simp add: ten_bytes_def task_def step_def)
  have v: "reported (ui (final (downloadFile exact ten_bytes window ''D'' ''info.txt'' 1))) =
     [Some 50, Some 100]"
    by (simp add: run_task ten_bytes_def)
  show ?thesis
    using m e b c l s v
      downloadFile_percentage_monotone [OF m e b c l s, of "''D''" "''info.txt''"]
    by simp
qed

text \<open>
  C6. For every task: a speed sample is shown only when at least one second has passed
  since the last sample (since the start of the transfer, for the first one); its operands
  are the bytes counted since that baseline and the time since that baseline; and the
  sample becomes the baseline of the next one. So every sample comes at least one second
  after the start, and any two samples are at least one second apart.
\<close>

theorem downloadFile_samples_once_per_second:
  "samples_ok (t_start env) 0 (samples (ui (final (downloadFile rnd env p directory file order)))) \<and>
   list_all (\<lambda>x. Second \<le> s_at x - t_start env)
     (samples (ui (final (downloadFile rnd env p directory file order)))) \<and>
   sorted_wrt (\<lambda>x y. Second \<le> s_at y - s_at x)
     (samples (ui (final (downloadFile rnd env p directory file order))))"
  using downloadFile_samples_ok [of env rnd p directory "file" order]
    samples_ok_spacing [of "t_start env" 0
      "samples (ui (final (downloadFile rnd env p directory file order)))"]
  by simp

theorem downloadFile_samples_once_per_second_witness:
  "t_start two_seconds = 0 \<and>
   samples (ui (final (downloadFile exact two_seconds window ''D'' ''info.txt'' 1))) =
     [\<lparr>s_at = 1000000006, s_current = 8, s_bytes = 8, s_elapsed = 1000000006\<rparr>,
      \<lparr>s_at = 2000000006, s_current = 16, s_bytes = 8, s_elapsed = 1000000000\<rparr>] \<and>
   samples_ok 0 0
     [\<lparr>s_at = 1000000006, s_current = 8, s_bytes = 8, s_elapsed = 1000000006\<rparr>,
      \<lparr>s_at = 2000000006, s_current = 16, s_bytes = 8, s_elapsed = 1000000000\<rparr>]"
proof -
  have t: "t_start two_seconds = 0"
    by (simp add: two_seconds_def task_def)
  have v: "samples (ui (final (downloadFile exact two_seconds window ''D'' ''info.txt'' 1))) =
     [\<lparr>s_at = 1000000006, s_current = 8, s_bytes = 8, s_elapsed = 1000000006\<rparr>,
      \<lparr>s_at = 2000000006, s_current = 16, s_bytes = 8, s_elapsed = 1000000000\<rparr>]"
    by (simp add: run_task two_seconds_def)
  have "samples_ok (t_start two_seconds) 0
      (samples (ui (final (downloadFile exact two_seconds window ''D'' ''info.txt'' 1))))"
    using downloadFile_samples_once_per_second
        [of two_seconds exact window "''D''" "''info.txt''" 1]
    by (rule conjunct1)
  then have "samples_ok 0 0
     [\<lparr>s_at = 1000000006, s_current = 8, s_bytes = 8, s_elapsed = 1000000006\<rparr>,
      \<lparr>s_at = 2000000006, s_current = 16, s_bytes = 8, s_elapsed = 1000000000\<rparr>]"
    by (simp only: t v)
  with t v show ?thesis
    by (intro conjI)
qed

end
